theory Spec2Isabelle
  imports Complex_Main "HOL-Library.Multiset" "HOL-Library.Char_ord" "HOL-Library.List_Lexorder"
    "HOL-Library.Product_Lexorder"
begin

section \<open>GO-PCA: q-values, signature expression, and the result objects\<close>

text \<open>
  This theory embeds the numeric helpers of \<^verbatim>\<open>gopca/common.py\<close> and the data classes of
  \<^verbatim>\<open>gopca/go_pca_objects.py\<close>.

  Conventions of the embedding.
  \<^item> A finite \<^verbatim>\<open>float64\<close> is an idealised real number: rounding and overflow are outside
    the model. Where the source can produce the special values of IEEE-754 (a division by
    zero in numpy yields \<^verbatim>\<open>nan\<close> or \<^verbatim>\<open>inf\<close> and a warning, never an exception), the
    type \<open>float64\<close> below carries them explicitly.
  \<^item> A Python exception is a value of type \<open>error\<close>, returned as \<open>Inl\<close>.
  \<^item> A one-dimensional numpy array is a list; the arrays that \<^verbatim>\<open>get_standardized\<close>
    copies and mutates in place live in an explicit heap.
\<close>

subsection \<open>Exceptions and floating-point values\<close>

text \<open>The exception classes that the modelled code can raise.\<close>

datatype error = AssertionError | ValueError | IndexError

text \<open>
  A \<^verbatim>\<open>float64\<close>: a finite value, the two infinities, or not-a-number. Signed zeros are
  not distinguished; every zero divisor met below is a non-negative zero (a square root, an
  absolute value or a count).
\<close>

datatype float64 = Fin real | PInf | NInf | NaN

fun is_fin :: "float64 \<Rightarrow> bool" where
  "is_fin (Fin x) = True"
| "is_fin _ = False"

fun fneg :: "float64 \<Rightarrow> float64" where
  "fneg (Fin x) = Fin (- x)"
| "fneg PInf = NInf"
| "fneg NInf = PInf"
| "fneg NaN = NaN"

fun fadd :: "float64 \<Rightarrow> float64 \<Rightarrow> float64" where
  "fadd (Fin x) (Fin y) = Fin (x + y)"
| "fadd NaN y = NaN"
| "fadd x NaN = NaN"
| "fadd PInf NInf = NaN"
| "fadd NInf PInf = NaN"
| "fadd PInf y = PInf"
| "fadd NInf y = NInf"
| "fadd (Fin x) PInf = PInf"
| "fadd (Fin x) NInf = NInf"

definition fsub :: "float64 \<Rightarrow> float64 \<Rightarrow> float64" where
  "fsub x y = fadd x (fneg y)"

text \<open>The sign of a value that is not \<open>NaN\<close>: \<open>-1\<close>, \<open>0\<close> or \<open>1\<close>.\<close>

fun fsgn :: "float64 \<Rightarrow> int" where
  "fsgn (Fin x) = (if x < 0 then - 1 else if x = 0 then 0 else 1)"
| "fsgn PInf = 1"
| "fsgn NInf = - 1"
| "fsgn NaN = 0"

definition inf_of_sign :: "int \<Rightarrow> float64" where
  "inf_of_sign s = (if s < 0 then NInf else PInf)"

fun fmul :: "float64 \<Rightarrow> float64 \<Rightarrow> float64" where
  "fmul (Fin x) (Fin y) = Fin (x * y)"
| "fmul NaN y = NaN"
| "fmul x NaN = NaN"
| "fmul x y = (if fsgn x = 0 \<or> fsgn y = 0 then NaN else inf_of_sign (fsgn x * fsgn y))"

text \<open>
  Division as numpy performs it: a finite non-zero value over zero is an infinity, zero over
  zero and infinity over infinity are \<open>NaN\<close>; nothing is raised.
\<close>

fun fdiv :: "float64 \<Rightarrow> float64 \<Rightarrow> float64" where
  "fdiv NaN y = NaN"
| "fdiv x NaN = NaN"
| "fdiv (Fin x) (Fin y) =
     (if y \<noteq> 0 then Fin (x / y)
      else if x = 0 then NaN
      else if 0 < x then PInf else NInf)"
| "fdiv (Fin x) y = Fin 0"
| "fdiv x (Fin y) = inf_of_sign (if y < 0 then - fsgn x else fsgn x)"
| "fdiv x y = NaN"

fun fsqrt :: "float64 \<Rightarrow> float64" where
  "fsqrt (Fin x) = (if x < 0 then NaN else Fin (sqrt x))"
| "fsqrt PInf = PInf"
| "fsqrt NInf = NaN"
| "fsqrt NaN = NaN"

fun fabs :: "float64 \<Rightarrow> float64" where
  "fabs (Fin x) = Fin \<bar>x\<bar>"
| "fabs PInf = PInf"
| "fabs NInf = PInf"
| "fabs NaN = NaN"

subsection \<open>The numpy reductions used by \<^verbatim>\<open>common.py\<close>\<close>

definition np_sum :: "float64 list \<Rightarrow> float64" where
  "np_sum xs = foldl fadd (Fin 0) xs"

text \<open>\<^verbatim>\<open>np.mean\<close>: the sum over the count; the mean of an empty array is \<open>0/0 = NaN\<close>.\<close>

definition np_mean :: "float64 list \<Rightarrow> float64" where
  "np_mean xs = fdiv (np_sum xs) (Fin (real (length xs)))"

text \<open>
  \<^verbatim>\<open>np.std(x, ddof=1)\<close>: the square root of the sum of squared deviations from the mean
  over \<^verbatim>\<open>max(n - ddof, 0)\<close>. On naturals \<open>length xs - 1\<close> is that maximum. With one
  sample the divisor is 0.
\<close>

definition np_std_ddof1 :: "float64 list \<Rightarrow> float64" where
  "np_std_ddof1 xs =
     (let arrmean = np_mean xs;
          x = map (\<lambda>v. fsub v arrmean) xs;
          x2 = map (\<lambda>v. fmul v v) x;
          ret = np_sum x2;
          rcount = length xs - 1
      in fsqrt (fdiv ret (Fin (real rcount))))"

text \<open>The sort order of \<^verbatim>\<open>float64\<close> values: \<open>-inf\<close>, the finite values, \<open>inf\<close>, \<open>NaN\<close> last.\<close>

fun fkey :: "float64 \<Rightarrow> nat \<times> real" where
  "fkey NInf = (0, 0)"
| "fkey (Fin x) = (1, x)"
| "fkey PInf = (2, 0)"
| "fkey NaN = (3, 0)"

text \<open>
  \<^verbatim>\<open>np.median\<close>: the mean of the middle element, or of the two middle elements, of the
  sorted array; \<open>NaN\<close> for an empty array or one that holds a \<open>NaN\<close>.
\<close>

definition np_median :: "float64 list \<Rightarrow> float64" where
  "np_median xs =
     (if xs = [] \<or> NaN \<in> set xs then NaN
      else let part = sort_key fkey xs; n = length xs; h = n div 2
           in if even n then np_mean [part ! (h - 1), part ! h] else np_mean [part ! h])"

subsection \<open>Storey-Tibshirani q-values (\<^verbatim>\<open>get_qvalues\<close>)\<close>

text \<open>
  \<^verbatim>\<open>np.argsort(pvals, kind='mergesort')\<close>: the indices of \<open>pvals\<close> in ascending order of
  value, equal values in ascending order of index (the sort is stable). Library
  \<open>sort_key\<close> is a stable insertion sort, so it returns the same permutation.
  The p-values and the prior are finite floats, modelled as reals.
\<close>

definition argsort :: "real list \<Rightarrow> nat list" where
  "argsort pvals = sort_key (\<lambda>i. pvals ! i) [0..<length pvals]"

text \<open>The order of the walk, \<^verbatim>\<open>a = a[::-1]\<close>: the ascending permutation reversed.\<close>

definition walk_order :: "real list \<Rightarrow> nat list" where
  "walk_order pvals = rev (argsort pvals)"

text \<open>
  The body of \<^verbatim>\<open>for i in a\<close>, with the loop variables \<open>s\<close>, \<open>q\<close> and the array
  \<open>qvals\<close> passed as state. Python's \<^verbatim>\<open>min(x, q)\<close> on finite floats is \<open>min\<close>;
  \<open>s\<close> starts at 1, so the division never has a zero divisor.
\<close>

fun qvalues_loop :: "real list \<Rightarrow> real \<Rightarrow> nat \<Rightarrow> nat list \<Rightarrow> nat \<Rightarrow> real \<Rightarrow> real list \<Rightarrow> real list" where
  "qvalues_loop pvals pi_zero n [] s q qvals = qvals"
| "qvalues_loop pvals pi_zero n (i # a) s q qvals =
     (let q' = min (((pi_zero * (pvals ! i)) * real n) / real s) q
      in qvalues_loop pvals pi_zero n a (s + 1) q' (qvals[i := q']))"

text \<open>
  \<^verbatim>\<open>np.empty(n)\<close> allocates an uninitialised array; the model fills it with zeros. Every
  cell is overwritten by the loop (lemma \<open>qvalues_loop_init_irrelevant\<close> below), so the
  choice does not show in the result. The source has no \<^verbatim>\<open>raise\<close> and no
  \<^verbatim>\<open>assert\<close>, every index comes from \<open>argsort\<close>, and the divisor \<open>s\<close> is at least 1:
  the function returns on every input.
\<close>

definition get_qvalues :: "real list \<Rightarrow> real \<Rightarrow> real list" where
  "get_qvalues pvals pi_zero =
     (let n = length pvals;
          qvals = replicate n 0;
          a = walk_order pvals
      in qvalues_loop pvals pi_zero n a 1 1 qvals)"

text \<open>The values of the running minimum \<open>q\<close>, in the order of the walk.\<close>

fun walk_q :: "real list \<Rightarrow> real \<Rightarrow> nat \<Rightarrow> nat list \<Rightarrow> nat \<Rightarrow> real \<Rightarrow> real list" where
  "walk_q pvals pi_zero n [] s q = []"
| "walk_q pvals pi_zero n (i # a) s q =
     (let q' = min (((pi_zero * (pvals ! i)) * real n) / real s) q
      in q' # walk_q pvals pi_zero n a (s + 1) q')"

text \<open>
  The order in which the ascending permutation lists two indices: by p-value, and by index
  among equal p-values.
\<close>

definition tie_lt :: "real list \<Rightarrow> nat \<Rightarrow> nat \<Rightarrow> bool" where
  "tie_lt pvals i j \<longleftrightarrow> pvals ! i < pvals ! j \<or> (pvals ! i = pvals ! j \<and> i < j)"

subsection \<open>\<^verbatim>\<open>get_standardized\<close> on a heap of arrays\<close>

text \<open>
  The heap holds the one-dimensional arrays; an array object is its address, an index into
  the heap. \<^verbatim>\<open>e.copy()\<close> allocates a new array at the next free address; \<^verbatim>\<open>e -= v\<close>
  and \<^verbatim>\<open>e /= v\<close> overwrite the array at the address that \<open>e\<close> is bound to.
\<close>

type_synonym heap = "float64 list list"

definition ndarray_copy :: "heap \<Rightarrow> nat \<Rightarrow> heap \<times> nat" where
  "ndarray_copy h a = (h @ [h ! a], length h)"

definition isub :: "heap \<Rightarrow> nat \<Rightarrow> float64 \<Rightarrow> heap" where
  "isub h a v = h[a := map (\<lambda>x. fsub x v) (h ! a)]"

definition idiv :: "heap \<Rightarrow> nat \<Rightarrow> float64 \<Rightarrow> heap" where
  "idiv h a v = h[a := map (\<lambda>x. fdiv x v) (h ! a)]"

text \<open>
  \<^verbatim>\<open>e = e.copy(); e -= np.mean(e); e /= np.std(e,ddof=1); return e\<close>: after the first
  statement the local name \<open>e\<close> is bound to the copy (\<open>e1\<close>).
\<close>

definition get_standardized :: "heap \<Rightarrow> nat \<Rightarrow> heap \<times> nat" where
  "get_standardized h e =
     (let (h1, e1) = ndarray_copy h e;
          h2 = isub h1 e1 (np_mean (h1 ! e1));
          h3 = idiv h2 e1 (np_std_ddof1 (h2 ! e1))
      in (h3, e1))"

text \<open>The values that \<^verbatim>\<open>get_standardized\<close> leaves in the array it returns.\<close>

definition standardized :: "float64 list \<Rightarrow> float64 list" where
  "standardized e =
     (let e1 = map (\<lambda>x. fsub x (np_mean e)) e
      in map (\<lambda>x. fdiv x (np_std_ddof1 e1)) e1)"

subsection \<open>Signature expression (\<^verbatim>\<open>get_signature_expression\<close> and the robust variant)\<close>

text \<open>A numpy array of any dimension: its shape and its elements in row-major order.\<close>

record ndarray =
  shape :: "nat list"
  elems :: "float64 list"

text \<open>\<^verbatim>\<open>genes.index(g)\<close>: the first position of \<open>g\<close>, or \<^verbatim>\<open>ValueError\<close>.\<close>

fun index_from :: "nat \<Rightarrow> 'a list \<Rightarrow> 'a \<Rightarrow> error + nat" where
  "index_from i [] x = Inl ValueError"
| "index_from i (y # ys) x = (if y = x then Inr i else index_from (i + 1) ys x)"

definition list_index :: "'a list \<Rightarrow> 'a \<Rightarrow> error + nat" where
  "list_index xs x = index_from 0 xs x"

text \<open>
  \<^verbatim>\<open>E[idx,:]\<close> for a \<open>p \<times> n\<close> array: row \<open>idx\<close>, or \<^verbatim>\<open>IndexError\<close> past the last row.
\<close>

definition row_of :: "ndarray \<Rightarrow> nat \<Rightarrow> nat \<Rightarrow> nat \<Rightarrow> error + float64 list" where
  "row_of E p n idx = (if idx < p then Inr (take n (drop (idx * n) (elems E))) else Inl IndexError)"

text \<open>\<^verbatim>\<open>np.mean(S,axis=0)\<close> for \<open>S\<close> given as its list of rows, each of length \<open>n\<close>.\<close>

definition mean_axis0 :: "float64 list list \<Rightarrow> nat \<Rightarrow> float64 list" where
  "mean_axis0 S n = map (\<lambda>j. np_mean (map (\<lambda>r. r ! j) S)) [0..<n]"

text \<open>
  The loop \<^verbatim>\<open>for i,g in enumerate(sig_genes)\<close> of \<^verbatim>\<open>get_signature_expression\<close>, with
  the counter \<open>i\<close> and the local matrix \<open>S\<close> (its list of rows) as state. Each statement
  of the body that writes \<^verbatim>\<open>S[i,:]\<close> is one update of row \<open>i\<close>.
\<close>

fun signature_expression_loop ::
  "string list \<Rightarrow> ndarray \<Rightarrow> nat \<Rightarrow> nat \<Rightarrow> nat \<Rightarrow> string list \<Rightarrow> float64 list list \<Rightarrow> error + float64 list list" where
  "signature_expression_loop genes E p n i [] S = Inr S"
| "signature_expression_loop genes E p n i (g # rest) S =
     (case list_index genes g of
        Inl err \<Rightarrow> Inl err
      | Inr idx \<Rightarrow>
          (case row_of E p n idx of
             Inl err \<Rightarrow> Inl err
           | Inr r \<Rightarrow>
               (let S1 = S[i := r];
                    S2 = S1[i := map (\<lambda>x. fsub x (np_mean (S1 ! i))) (S1 ! i)];
                    S3 = S2[i := map (\<lambda>x. fdiv x (np_std_ddof1 (S2 ! i))) (S2 ! i)]
                in signature_expression_loop genes E p n (i + 1) rest S3)))"

text \<open>
  \<^verbatim>\<open>p,n = E.shape\<close> raises \<^verbatim>\<open>ValueError\<close> unless \<open>E\<close> has two dimensions;
  \<^verbatim>\<open>np.zeros((p_sig,n))\<close> is the initial \<open>S\<close>. There is no check of \<open>n\<close> or of the
  divisor anywhere in the function.
\<close>

definition get_signature_expression :: "string list \<Rightarrow> ndarray \<Rightarrow> string list \<Rightarrow> error + float64 list" where
  "get_signature_expression genes E sig_genes =
     (let p_sig = length sig_genes
      in case shape E of
           [p, n] \<Rightarrow>
             (let S = replicate p_sig (replicate n (Fin 0))
              in case signature_expression_loop genes E p n 0 sig_genes S of
                   Inl err \<Rightarrow> Inl err
                 | Inr S' \<Rightarrow> Inr (mean_axis0 S' n))
         | _ \<Rightarrow> Inl ValueError)"

text \<open>
  The robust variant. \<^verbatim>\<open>misc.bisect_index\<close> belongs to the external package
  \<^verbatim>\<open>genometools\<close>; it is a parameter of the model (a lookup that returns an index or
  raises).
\<close>

fun signature_expression_robust_loop ::
  "(string list \<Rightarrow> string \<Rightarrow> error + nat) \<Rightarrow> string list \<Rightarrow> ndarray \<Rightarrow> nat \<Rightarrow> nat \<Rightarrow> nat \<Rightarrow> string list \<Rightarrow>
   float64 list list \<Rightarrow> error + float64 list list" where
  "signature_expression_robust_loop bisect_index genes E p n i [] S = Inr S"
| "signature_expression_robust_loop bisect_index genes E p n i (g # rest) S =
     (case bisect_index genes g of
        Inl err \<Rightarrow> Inl err
      | Inr idx \<Rightarrow>
          (case row_of E p n idx of
             Inl err \<Rightarrow> Inl err
           | Inr r \<Rightarrow>
               (let S1 = S[i := r];
                    med = np_median (S1 ! i);
                    mad = np_median (map (\<lambda>x. fabs (fsub x med)) (S1 ! i));
                    std = fmul (Fin (14826 / 10000)) mad;
                    S2 = S1[i := map (\<lambda>x. fsub x med) (S1 ! i)];
                    S3 = S2[i := map (\<lambda>x. fdiv x std) (S2 ! i)]
                in signature_expression_robust_loop bisect_index genes E p n (i + 1) rest S3)))"

definition get_signature_expression_robust ::
  "(string list \<Rightarrow> string \<Rightarrow> error + nat) \<Rightarrow> string list \<Rightarrow> ndarray \<Rightarrow> string list \<Rightarrow> error + float64 list" where
  "get_signature_expression_robust bisect_index genes E sig_genes =
     (let p_sig = length sig_genes
      in case shape E of
           [p, n] \<Rightarrow>
             (let S = replicate p_sig (replicate n (Fin 0))
              in case signature_expression_robust_loop bisect_index genes E p n 0 sig_genes S of
                   Inl err \<Rightarrow> Inl err
                 | Inr S' \<Rightarrow> Inr (mean_axis0 S' n))
         | _ \<Rightarrow> Inl ValueError)"

text \<open>
  The divisors of the two loop bodies, as functions of the row read from \<open>E\<close>: the standard
  deviation of the centred row, and 1.4826 times the median absolute deviation.
\<close>

definition std_denominator :: "float64 list \<Rightarrow> float64" where
  "std_denominator e = np_std_ddof1 (map (\<lambda>x. fsub x (np_mean e)) e)"

definition mad_denominator :: "float64 list \<Rightarrow> float64" where
  "mad_denominator e =
     fmul (Fin (14826 / 10000)) (np_median (map (\<lambda>x. fabs (fsub x (np_median e))) e))"

text \<open>The row that the robust loop body leaves in \<open>S\<close>.\<close>

definition standardized_robust :: "float64 list \<Rightarrow> float64 list" where
  "standardized_robust e =
     map (\<lambda>x. fdiv x (mad_denominator e)) (map (\<lambda>x. fsub x (np_median e)) e)"

text \<open>The expression row of gene \<open>g\<close>, \<^verbatim>\<open>E[genes.index(g),:]\<close>.\<close>

definition gene_row :: "string list \<Rightarrow> ndarray \<Rightarrow> string \<Rightarrow> error + float64 list" where
  "gene_row genes E g =
     (case shape E of
        [p, n] \<Rightarrow> (case list_index genes g of Inl err \<Rightarrow> Inl err | Inr idx \<Rightarrow> row_of E p n idx)
      | _ \<Rightarrow> Inl ValueError)"

subsection \<open>\<^verbatim>\<open>GOPCAConfig\<close>\<close>

text \<open>The class attribute \<^verbatim>\<open>valid_attrs\<close>, in the order of the source literal.\<close>

definition valid_attrs :: "string list" where
  "valid_attrs = [''mHG_X_frac'', ''mHG_X_min'', ''mHG_L'', ''pval_thresh'', ''mfe_pval_thresh'',
     ''mfe_thresh'', ''disable_local_filter'', ''disable_global_filter'']"

text \<open>The line printed for an unknown key; \<open>CHR 0x22\<close> is the double quote.\<close>

definition warning_line :: "string \<Rightarrow> string" where
  "warning_line k = ''Warning: Config attribute '' @ [CHR 0x22] @ k @ [CHR 0x22] @ '' unknown (will be ignored).''"

text \<open>The instance dictionary of a constructed configuration.\<close>

type_synonym 'v GOPCAConfig = "string \<rightharpoonup> 'v"

text \<open>
  \<^verbatim>\<open>GOPCAConfig.__init__(self, **kwargs)\<close>. The keyword arguments are an association list
  (a Python dictionary, whose keys can be enumerated). The result is the list of lines
  printed and either \<^verbatim>\<open>AssertionError\<close> or the instance dictionary. The warnings are
  printed before the assertions run, in sorted order of the unknown keys; the loop of
  assertions fails exactly when some valid attribute is not supplied; the final dictionary
  is \<^verbatim>\<open>kwargs\<close> restricted to the valid attributes.
\<close>

definition GOPCAConfig_init :: "(string \<times> 'v) list \<Rightarrow> string list \<times> (error + 'v GOPCAConfig)" where
  "GOPCAConfig_init kwargs =
     (let supplied_attrs = set (map fst kwargs);
          unknown_attrs = supplied_attrs - set valid_attrs;
          out = map warning_line (sorted_list_of_set unknown_attrs)
      in if list_all (\<lambda>k. k \<in> supplied_attrs) valid_attrs
         then (out, Inr (map_of kwargs |` set valid_attrs))
         else (out, Inl AssertionError))"

subsection \<open>\<^verbatim>\<open>GOPCASignature\<close>\<close>







text \<open>
  The attributes that \<^verbatim>\<open>GOPCASignature.__init__\<close> sets. The class of the enrichment
  object is not part of this repository: its type is the parameter \<open>'e\<close>.
\<close>

record 'e GOPCASignature =
  signature_genes :: "string set"
  signature_pc :: int
  signature_mfe :: float64
  signature_enrichment :: 'e
  signature_label :: string


text \<open>The Python objects that the constructors and \<^verbatim>\<open>__eq__\<close> receive and test by type.\<close>

datatype ('v, 'e) pyobj =
    ConfigObj "'v GOPCAConfig"
  | SignatureObj "'e GOPCASignature"
  | NdarrayObj ndarray
  | ListObj "('v, 'e) pyobj list"
  | TupleObj "('v, 'e) pyobj list"
  | StrObj string
  | NoneObj


subsection \<open>\<^verbatim>\<open>GOPCAResult\<close>\<close>

record ('v, 'e) GOPCAResult =
  result_config :: "'v GOPCAConfig"
  result_genes :: "('v, 'e) pyobj list"
  result_samples :: "('v, 'e) pyobj list"
  result_W :: ndarray
  result_signatures :: "('v, 'e) pyobj list"
  result_S :: ndarray

text \<open>The items of a list or a tuple; \<open>None\<close> for an object that is neither.\<close>

fun seq_items :: "('v, 'e) pyobj \<Rightarrow> ('v, 'e) pyobj list option" where
  "seq_items (ListObj xs) = Some xs"
| "seq_items (TupleObj xs) = Some xs"
| "seq_items _ = None"

fun is_GOPCASignature :: "('v, 'e) pyobj \<Rightarrow> bool" where
  "is_GOPCASignature (SignatureObj s) = True"
| "is_GOPCASignature _ = False"

text \<open>\<^verbatim>\<open>a.shape[k]\<close>: \<^verbatim>\<open>IndexError\<close> when the array has too few dimensions.\<close>

definition shape_at :: "ndarray \<Rightarrow> nat \<Rightarrow> error + nat" where
  "shape_at a k = (if k < length (shape a) then Inr (shape a ! k) else Inl IndexError)"

text \<open>
  \<^verbatim>\<open>GOPCAResult.__init__\<close>: the \<^verbatim>\<open>isinstance\<close> assertions in the order of the source,
  then the three shape assertions, then the assignments of the attributes.
\<close>

definition GOPCAResult_init ::
  "('v, 'e) pyobj \<Rightarrow> ('v, 'e) pyobj \<Rightarrow> ('v, 'e) pyobj \<Rightarrow> ('v, 'e) pyobj \<Rightarrow> ('v, 'e) pyobj \<Rightarrow>
   ('v, 'e) pyobj \<Rightarrow> error + ('v, 'e) GOPCAResult" where
  "GOPCAResult_init config genes samples W signatures S =
     (case config of
        ConfigObj config' \<Rightarrow>
       (case seq_items genes of
          Some genes' \<Rightarrow>
         (case seq_items samples of
            Some samples' \<Rightarrow>
           (case W of
              NdarrayObj W' \<Rightarrow>
             (case seq_items signatures of
                Some signatures' \<Rightarrow>
                  if \<not> list_all is_GOPCASignature signatures' then Inl AssertionError
                  else
                   (case S of
                      NdarrayObj S' \<Rightarrow>
                       (case shape_at W' 0 of
                          Inl err \<Rightarrow> Inl err
                        | Inr w0 \<Rightarrow>
                            if w0 \<noteq> length genes' then Inl AssertionError
                            else
                             (case shape_at S' 0 of
                                Inl err \<Rightarrow> Inl err
                              | Inr s0 \<Rightarrow>
                                  if s0 \<noteq> length signatures' then Inl AssertionError
                                  else
                                   (case shape_at S' 1 of
                                      Inl err \<Rightarrow> Inl err
                                    | Inr s1 \<Rightarrow>
                                        if s1 \<noteq> length samples' then Inl AssertionError
                                        else Inr \<lparr>result_config = config',
                                                  result_genes = genes',
                                                  result_samples = samples',
                                                  result_W = W',
                                                  result_signatures = signatures',
                                                  result_S = S'\<rparr>)))
                    | _ \<Rightarrow> Inl AssertionError)
              | None \<Rightarrow> Inl AssertionError)
            | _ \<Rightarrow> Inl AssertionError)
          | None \<Rightarrow> Inl AssertionError)
        | None \<Rightarrow> Inl AssertionError)
      | _ \<Rightarrow> Inl AssertionError)"


section \<open>Properties of \<^verbatim>\<open>get_qvalues\<close>\<close>


lemma argsort_set: "set (argsort pvals) = {0..<length pvals}"
  by (simp add: argsort_def)

lemma argsort_distinct: "distinct (argsort pvals)"
  by (simp add: argsort_def)

lemma argsort_length: "length (argsort pvals) = length pvals"
  by (simp add: argsort_def)


lemma insort_key_tie:
  "sorted_wrt (tie_lt pvals) ys \<Longrightarrow> \<forall>y\<in>set ys. x < y \<Longrightarrow>
   sorted_wrt (tie_lt pvals) (insort_key (\<lambda>i. pvals ! i) x ys)"
proof (induction ys)
  case Nil
  then show ?case by simp
next
  case (Cons y ys)
  show ?case
  proof (cases "pvals ! x \<le> pvals ! y")
    case True
    have "\<forall>z\<in>set (y # ys). tie_lt pvals x z"
    proof
      fix z assume z: "z \<in> set (y # ys)"
      have "z = y \<or> tie_lt pvals y z" using Cons.prems(1) z by auto
      then have "pvals ! y \<le> pvals ! z" by (auto simp: tie_lt_def)
      moreover have "x < z" using Cons.prems(2) z by blast
      ultimately show "tie_lt pvals x z" using True by (auto simp: tie_lt_def)
    qed
    then show ?thesis using True Cons.prems(1) by simp
  next
    case False
    then have "tie_lt pvals y x" by (simp add: tie_lt_def)
    moreover have "sorted_wrt (tie_lt pvals) (insort_key (\<lambda>i. pvals ! i) x ys)"
      using Cons by simp
    ultimately show ?thesis using False Cons.prems(1) by (auto simp: set_insort_key)
  qed
qed

lemma sort_key_tie:
  "sorted_wrt (<) xs \<Longrightarrow> sorted_wrt (tie_lt pvals) (sort_key (\<lambda>i. pvals ! i) xs)"
proof (induction xs)
  case Nil
  then show ?case by simp
next
  case (Cons x xs)
  then show ?case by (simp add: insort_key_tie)
qed

lemma argsort_tie: "sorted_wrt (tie_lt pvals) (argsort pvals)"
  unfolding argsort_def by (rule sort_key_tie) (simp add: sorted_wrt_upt)

lemma qvalues_loop_length:
  "length (qvalues_loop pvals pi_zero n a s q qvals) = length qvals"
  by (induction a arbitrary: s q qvals) (simp_all add: Let_def)

lemma walk_q_length: "length (walk_q pvals pi_zero n a s q) = length a"
  by (induction a arbitrary: s q) (simp_all add: Let_def)

lemma qvalues_loop_untouched:
  "i \<notin> set a \<Longrightarrow> qvalues_loop pvals pi_zero n a s q qvals ! i = qvals ! i"
  by (induction a arbitrary: s q qvals) (simp_all add: Let_def)

lemma qvalues_loop_walk:
  "distinct a \<Longrightarrow> \<forall>i\<in>set a. i < length qvals \<Longrightarrow> k < length a \<Longrightarrow>
   qvalues_loop pvals pi_zero n a s q qvals ! (a ! k) = walk_q pvals pi_zero n a s q ! k"
proof (induction a arbitrary: s q qvals k)
  case Nil
  then show ?case by simp
next
  case (Cons i a)
  show ?case
  proof (cases k)
    case 0
    then show ?thesis using Cons.prems
      by (simp add: Let_def qvalues_loop_untouched)
  next
    case (Suc k')
    then show ?thesis using Cons.prems Cons.IH by (simp add: Let_def)
  qed
qed

lemma qvalues_loop_init_irrelevant:
  "set a = {0..<m} \<Longrightarrow> distinct a \<Longrightarrow> length qvals = m \<Longrightarrow> length qvals' = m \<Longrightarrow>
   qvalues_loop pvals pi_zero n a s q qvals = qvalues_loop pvals pi_zero n a s q qvals'"
proof (rule nth_equalityI)
  assume a: "set a = {0..<m}" "distinct a" "length qvals = m" "length qvals' = m"
  show "length (qvalues_loop pvals pi_zero n a s q qvals) = length (qvalues_loop pvals pi_zero n a s q qvals')"
    using a by (simp add: qvalues_loop_length)
  fix i assume "i < length (qvalues_loop pvals pi_zero n a s q qvals)"
  then have "i \<in> set a" using a by (simp add: qvalues_loop_length)
  then obtain k where k: "k < length a" "a ! k = i" by (auto simp: in_set_conv_nth)
  have "qvalues_loop pvals pi_zero n a s q qvals ! (a ! k) = walk_q pvals pi_zero n a s q ! k"
    using a k by (intro qvalues_loop_walk) auto
  moreover
  have "qvalues_loop pvals pi_zero n a s q qvals' ! (a ! k) = walk_q pvals pi_zero n a s q ! k"
    using a k by (intro qvalues_loop_walk) auto
  ultimately show "qvalues_loop pvals pi_zero n a s q qvals ! i = qvalues_loop pvals pi_zero n a s q qvals' ! i"
    using k by simp
qed

lemma walk_q_le: "x \<in> set (walk_q pvals pi_zero n a s q) \<Longrightarrow> x \<le> q"
proof (induction a arbitrary: s q)
  case Nil
  then show ?case by simp
next
  case (Cons i a)
  then show ?case by (fastforce simp: Let_def)
qed

lemma walk_q_desc: "sorted_wrt (\<lambda>x y. y \<le> x) (walk_q pvals pi_zero n a s q)"
proof (induction a arbitrary: s q)
  case Nil
  then show ?case by simp
next
  case (Cons i a)
  then show ?case by (auto simp: Let_def dest: walk_q_le)
qed



lemma walk_order_distinct: "distinct (walk_order pvals)"
  by (simp add: walk_order_def argsort_distinct)

lemma walk_order_set: "set (walk_order pvals) = {0..<length pvals}"
  by (simp add: walk_order_def argsort_set)

lemma walk_order_length: "length (walk_order pvals) = length pvals"
  by (simp add: walk_order_def argsort_length)

lemma get_qvalues_length: "length (get_qvalues pvals pi_zero) = length pvals"
  by (simp add: get_qvalues_def Let_def qvalues_loop_length)

lemma get_qvalues_walk:
  assumes "k < length pvals"
  shows "get_qvalues pvals pi_zero ! (walk_order pvals ! k) =
         walk_q pvals pi_zero (length pvals) (walk_order pvals) 1 1 ! k"
  unfolding get_qvalues_def Let_def
  using assms by (intro qvalues_loop_walk) (simp_all add: walk_order_distinct walk_order_set walk_order_length)

lemma get_qvalues_map_walk:
  "map (\<lambda>i. get_qvalues pvals pi_zero ! i) (walk_order pvals) =
   walk_q pvals pi_zero (length pvals) (walk_order pvals) 1 1"
  by (rule nth_equalityI) (simp_all add: walk_q_length walk_order_length get_qvalues_walk)

lemma get_qvalues_sorted:
  "sorted (map (\<lambda>i. get_qvalues pvals pi_zero ! i) (argsort pvals))"
proof -
  have "map (\<lambda>i. get_qvalues pvals pi_zero ! i) (argsort pvals) =
        rev (map (\<lambda>i. get_qvalues pvals pi_zero ! i) (walk_order pvals))"
    by (simp add: walk_order_def rev_map)
  also have "\<dots> = rev (walk_q pvals pi_zero (length pvals) (walk_order pvals) 1 1)"
    by (simp only: get_qvalues_map_walk)
  finally show ?thesis
    using walk_q_desc[of pvals pi_zero "length pvals" "walk_order pvals" 1 1]
    by (simp add: sorted_wrt_rev)
qed

lemma tie_lt_position:
  assumes "i < length pvals" "j < length pvals" "tie_lt pvals i j"
  shows "\<exists>k l. k < l \<and> l < length pvals \<and> argsort pvals ! k = i \<and> argsort pvals ! l = j"
proof -
  have "i \<in> set (argsort pvals)" "j \<in> set (argsort pvals)"
    using assms by (simp_all add: argsort_set)
  then obtain k l where k: "k < length pvals" "argsort pvals ! k = i"
    and l: "l < length pvals" "argsort pvals ! l = j"
    by (auto simp: in_set_conv_nth argsort_length)
  have "i \<noteq> j" using assms(3) by (auto simp: tie_lt_def)
  then have "k \<noteq> l" using k l by auto
  moreover have "\<not> l < k"
  proof
    assume "l < k"
    then have "tie_lt pvals j i"
      using sorted_wrt_nth_less[OF argsort_tie, of l k pvals] k l by (simp add: argsort_length)
    then show False using assms(3) by (auto simp: tie_lt_def)
  qed
  ultimately have "k < l" by simp
  then show ?thesis using k l by blast
qed

lemma get_qvalues_tie_mono:
  assumes "i < length pvals" "j < length pvals" "tie_lt pvals i j"
  shows "get_qvalues pvals pi_zero ! i \<le> get_qvalues pvals pi_zero ! j"
proof -
  obtain k l where kl: "k < l" "l < length pvals" "argsort pvals ! k = i" "argsort pvals ! l = j"
    using tie_lt_position[OF assms] by blast
  let ?m = "map (\<lambda>i. get_qvalues pvals pi_zero ! i) (argsort pvals)"
  have "?m ! k \<le> ?m ! l"
    using get_qvalues_sorted[of pvals pi_zero] kl
    by (intro sorted_nth_mono) (simp_all add: argsort_length)
  then show ?thesis using kl by (simp add: argsort_length)
qed



subsection \<open>C2: the range of the q-values\<close>




subsection \<open>C3: no input validation\<close>

text \<open>
  Claim C3 asks \<^verbatim>\<open>get_qvalues\<close> to fail on an empty vector and on a vector with a value
  outside \<open>[0, 1]\<close>. The source has no check, no \<^verbatim>\<open>assert\<close> and no \<^verbatim>\<open>raise\<close>: on
  the empty vector the loop body never runs and the empty array is returned, and values
  outside \<open>[0, 1]\<close> go through the same arithmetic as any other.
\<close>

theorem get_qvalues_returns_counterexample:
  "get_qvalues [] 1 = [] \<and> get_qvalues [2, -1] 1 = [1, -1]"
  by code_simp

text \<open>
  C3 (amended): \<^verbatim>\<open>get_qvalues\<close> validates nothing; on every input vector, whatever its
  values, it returns a vector of the same length, and on the empty vector the empty vector.
\<close>

theorem get_qvalues_returns:
  "length (get_qvalues pvals pi_zero) = length pvals \<and> get_qvalues [] pi_zero = []"
  by (simp add: get_qvalues_length) (simp add: get_qvalues_def walk_order_def argsort_def)

theorem get_qvalues_returns_witness:
  "length (get_qvalues [2, -1] 1) = 2 \<and> get_qvalues [] 1 = []"
  using get_qvalues_returns[of "[2, -1]" 1] get_qvalues_returns[of "[]" 1] by simp

subsection \<open>C4: ties in the descending walk\<close>

text \<open>
  Claim C4 says that among equal p-values the smaller input index is visited first. The
  stable sort is the ascending one; the walk is its reversal, which visits equal p-values
  in descending order of index. On \<open>[0.5, 0.5]\<close> index 1 is visited first (rank \<open>s = 1\<close>)
  and index 0 second.
\<close>

theorem get_qvalues_ties_counterexample:
  "[1/2, 1/2 :: real] ! 0 = [1/2, 1/2] ! 1 \<and> walk_order [1/2, 1/2] = [1, 0] \<and>
   walk_order [1/2, 1/2] ! 0 = 1 \<and> get_qvalues [1/2, 1/2] 1 = [1/2, 1]"
  by code_simp

text \<open>
  C4 (amended): the ascending sort is stable, so in the descending walk, among entries with
  equal p-values, the entry with the larger input index is visited earlier: it stands at the
  smaller position \<open>k\<close> of the walk, whose rank is \<open>s = k + 1\<close>. The entry with the
  smaller index therefore gets the smaller or equal q-value.
\<close>

theorem get_qvalues_ties:
  assumes "i < j" "j < length pvals" "pvals ! i = pvals ! j"
  shows "(\<exists>k l. k < l \<and> l < length pvals \<and> walk_order pvals ! k = j \<and> walk_order pvals ! l = i) \<and>
         get_qvalues pvals pi_zero ! i \<le> get_qvalues pvals pi_zero ! j"
proof -
  have t: "tie_lt pvals i j" using assms by (simp add: tie_lt_def)
  have i: "i < length pvals" using assms by simp
  obtain k l where kl: "k < l" "l < length pvals" "argsort pvals ! k = i" "argsort pvals ! l = j"
    using tie_lt_position[OF i assms(2) t] by blast
  let ?n = "length pvals"
  have "walk_order pvals ! (?n - Suc l) = j" "walk_order pvals ! (?n - Suc k) = i"
    using kl by (simp_all add: walk_order_def rev_nth argsort_length)
  moreover have "?n - Suc l < ?n - Suc k" "?n - Suc k < ?n" using kl by simp_all
  ultimately have "\<exists>k l. k < l \<and> l < length pvals \<and> walk_order pvals ! k = j \<and> walk_order pvals ! l = i"
    by blast
  then show ?thesis using get_qvalues_tie_mono[OF i assms(2) t] by simp
qed

theorem get_qvalues_ties_witness:
  "(0::nat) < 1 \<and> [1/2, 1/2 :: real] ! 0 = [1/2, 1/2] ! 1 \<and>
   (\<exists>k l. k < l \<and> l < length [1/2, 1/2 :: real] \<and> walk_order [1/2, 1/2] ! k = 1 \<and> walk_order [1/2, 1/2] ! l = 0) \<and>
   get_qvalues [1/2, 1/2] 1 ! 0 \<le> get_qvalues [1/2, 1/2] 1 ! 1"
proof -
  have h1: "(0::nat) < 1" by simp
  have h2: "1 < length [1/2, 1/2 :: real]" by simp
  have h3: "[1/2, 1/2 :: real] ! 0 = [1/2, 1/2] ! 1" by simp
  show ?thesis using get_qvalues_ties[OF h1 h2 h3, of 1] h3 by simp
qed

subsection \<open>C1: monotonicity\<close>




section \<open>Properties of \<^verbatim>\<open>get_standardized\<close> and of the signature expression\<close>

lemma get_standardized_eq:
  assumes "e < length h"
  shows "get_standardized h e = (h @ [standardized (h ! e)], length h)"
  using assms
  by (simp add: get_standardized_def ndarray_copy_def isub_def idiv_def standardized_def Let_def
      nth_append)

subsection \<open>C10: \<^verbatim>\<open>get_standardized\<close> leaves its argument alone\<close>

text \<open>
  C10: \<^verbatim>\<open>get_standardized\<close> never mutates its argument. For every heap \<open>h\<close> and every
  array \<open>e\<close> of it, after the call the array at \<open>e\<close> (and every other array that existed
  before) holds the values it held before; the array returned is at a fresh address, the one
  past the old heap, hence distinct from \<open>e\<close>, and holds the standardized values.
\<close>

theorem get_standardized_frame:
  assumes "e < length h" "get_standardized h e = (h', r)"
  shows "h' ! e = h ! e \<and> (\<forall>a<length h. h' ! a = h ! a) \<and>
         r = length h \<and> r \<noteq> e \<and> length h' = Suc (length h) \<and>
         h' ! r = standardized (h ! e)"
  using assms by (auto simp: get_standardized_eq nth_append)

theorem get_standardized_frame_witness:
  "get_standardized [[Fin 1, Fin 2, Fin 3]] 0 = ([[Fin 1, Fin 2, Fin 3], [Fin (- 1), Fin 0, Fin 1]], 1) \<and>
   [[Fin 1, Fin 2, Fin 3], [Fin (- 1), Fin 0, Fin 1]] ! 0 = [[Fin 1, Fin 2, Fin 3]] ! 0 \<and>
   (1::nat) = length [[Fin 1, Fin 2, Fin 3]] \<and> (1::nat) \<noteq> 0 \<and>
   [[Fin 1, Fin 2, Fin 3], [Fin (- 1), Fin 0, Fin 1]] ! 1 = standardized ([[Fin 1, Fin 2, Fin 3]] ! 0)"
proof -
  let ?h = "[[Fin 1, Fin 2, Fin 3]]"
  have h1: "0 < length ?h" by simp
  have v: "get_standardized ?h 0 = ([[Fin 1, Fin 2, Fin 3], [Fin (- 1), Fin 0, Fin 1]], 1)"
    by (simp add: get_standardized_def ndarray_copy_def isub_def idiv_def np_mean_def np_sum_def
      np_std_ddof1_def fsub_def Let_def)
  show ?thesis using get_standardized_frame[OF h1 v] v by simp
qed

subsection \<open>C8: a signature of one gene\<close>

lemma np_mean_single: "np_mean [x] = x"
  by (cases x) (simp_all add: np_mean_def np_sum_def inf_of_sign_def)

lemma mean_axis0_single: "length r = n \<Longrightarrow> mean_axis0 [r] n = r"
  by (rule nth_equalityI) (simp_all add: mean_axis0_def np_mean_single)

lemma row_of_length:
  "row_of E p n idx = Inr r \<Longrightarrow> length (elems E) = p * n \<Longrightarrow> length r = n"
proof -
  assume a: "row_of E p n idx = Inr r" "length (elems E) = p * n"
  then have idx: "idx < p" and r: "r = take n (drop (idx * n) (elems E))"
    by (auto simp: row_of_def split: if_splits)
  have "Suc idx * n \<le> p * n" using idx by (intro mult_le_mono1) simp
  then have "n \<le> p * n - idx * n" by simp
  then show ?thesis using r a(2) by simp
qed

lemma standardized_length: "length (standardized e) = length e"
  by (simp add: standardized_def Let_def)

lemma standardized_robust_length: "length (standardized_robust e) = length e"
  by (simp add: standardized_robust_def)

lemma index_from_bounds:
  "index_from i xs x = Inr k \<Longrightarrow> i \<le> k \<and> k < i + length xs \<and> xs ! (k - i) = x"
proof (induction xs arbitrary: i)
  case Nil
  then show ?case by simp
next
  case (Cons y ys)
  show ?case
  proof (cases "y = x")
    case True
    then show ?thesis using Cons.prems by simp
  next
    case False
    then have "index_from (i + 1) ys x = Inr k" using Cons.prems by simp
    then have "i + 1 \<le> k \<and> k < i + 1 + length ys \<and> ys ! (k - (i + 1)) = x"
      by (rule Cons.IH)
    then have b: "i + 1 \<le> k" "k < i + 1 + length ys" "ys ! (k - (i + 1)) = x" by simp_all
    have "k - i = Suc (k - (i + 1))" using b(1) by simp
    then have "(y # ys) ! (k - i) = x" using b(3) by simp
    then show ?thesis using b by simp
  qed
qed

lemma index_from_mem: "x \<in> set xs \<Longrightarrow> \<exists>k. index_from i xs x = Inr k"
  by (induction xs arbitrary: i) auto

lemma list_index_mem:
  "x \<in> set xs \<Longrightarrow> \<exists>k<length xs. list_index xs x = Inr k \<and> xs ! k = x"
proof -
  assume "x \<in> set xs"
  then obtain k where k: "index_from 0 xs x = Inr k" using index_from_mem by fast
  then show ?thesis using index_from_bounds[OF k] by (auto simp: list_index_def)
qed

lemma signature_expression_loop_single:
  assumes "list_index genes g = Inr idx" "row_of E p n idx = Inr r"
  shows "signature_expression_loop genes E p n 0 [g] [z] = Inr [standardized r]"
  using assms by (simp add: Let_def standardized_def)

text \<open>
  C8: for an expression matrix \<open>E\<close> with \<open>p\<close> genes and \<open>n \<ge> 2\<close> samples and a gene
  \<open>g\<close> of the gene list, the score vector that \<^verbatim>\<open>get_signature_expression\<close> computes for
  the signature \<open>[g]\<close> is exactly the array that \<^verbatim>\<open>get_standardized\<close> returns for the
  expression row of \<open>g\<close> (the array at address \<open>e\<close> of any heap \<open>h\<close> that holds that row).
\<close>

theorem get_signature_expression_single_gene:
  assumes "shape E = [p, n]" "length (elems E) = p * n" "length genes = p" "2 \<le> n"
    and "g \<in> set genes" "e < length h" "gene_row genes E g = Inr (h ! e)"
  shows "get_signature_expression genes E [g] =
         Inr (fst (get_standardized h e) ! snd (get_standardized h e))"
proof -
  obtain idx where idx: "idx < length genes" "list_index genes g = Inr idx"
    using list_index_mem[OF assms(5)] by blast
  have row: "row_of E p n idx = Inr (h ! e)"
    using assms(1,7) idx(2) by (simp add: gene_row_def)
  then have len: "length (h ! e) = n" using assms(2) by (rule row_of_length)
  have "signature_expression_loop genes E p n 0 [g] (replicate (length [g]) (replicate n (Fin 0))) =
        Inr [standardized (h ! e)]"
    using signature_expression_loop_single[OF idx(2) row, of "replicate n (Fin 0)"] by simp
  then have "get_signature_expression genes E [g] = Inr (mean_axis0 [standardized (h ! e)] n)"
    using assms(1) by (simp add: get_signature_expression_def del: signature_expression_loop.simps)
  also have "mean_axis0 [standardized (h ! e)] n = standardized (h ! e)"
    using len by (intro mean_axis0_single) (simp add: standardized_length)
  finally show ?thesis using assms(6) by (simp add: get_standardized_eq)
qed

theorem get_signature_expression_single_gene_witness:
  "get_signature_expression [''a'', ''b'']
      \<lparr>shape = [2, 3], elems = [Fin 1, Fin 2, Fin 3, Fin 5, Fin 5, Fin 9]\<rparr> [''a''] =
    Inr (fst (get_standardized [[Fin 1, Fin 2, Fin 3]] 0) ! snd (get_standardized [[Fin 1, Fin 2, Fin 3]] 0)) \<and>
   fst (get_standardized [[Fin 1, Fin 2, Fin 3]] 0) ! snd (get_standardized [[Fin 1, Fin 2, Fin 3]] 0) =
     [Fin (- 1), Fin 0, Fin 1]"
proof -
  let ?E = "\<lparr>shape = [2, 3], elems = [Fin 1, Fin 2, Fin 3, Fin 5, Fin 5, Fin 9]\<rparr>"
  let ?h = "[[Fin 1, Fin 2, Fin 3]]"
  have h1: "shape ?E = [2, 3]" by simp
  have h2: "length (elems ?E) = 2 * 3" by simp
  have h3: "length [''a'', ''b''] = 2" by simp
  have h4: "(2::nat) \<le> 3" by simp
  have h5: "''a'' \<in> set [''a'', ''b'']" by simp
  have h6: "0 < length ?h" by simp
  have h7: "gene_row [''a'', ''b''] ?E ''a'' = Inr (?h ! 0)"
    by (simp add: gene_row_def list_index_def row_of_def)
  have v: "get_standardized ?h 0 = ([[Fin 1, Fin 2, Fin 3], [Fin (- 1), Fin 0, Fin 1]], 1)"
    by (simp add: get_standardized_def ndarray_copy_def isub_def idiv_def np_mean_def np_sum_def
      np_std_ddof1_def fsub_def Let_def)
  show ?thesis
    using get_signature_expression_single_gene[OF h1 h2 h3 h4 h5 h6 h7] v by simp
qed

subsection \<open>C7: degenerate input to the two calculators\<close>

lemma signature_expression_loop_rows:
  assumes "\<forall>g\<in>set gs. \<exists>idx<p. list_index genes g = Inr idx"
    and "i + length gs \<le> length S"
  shows "\<exists>S'. signature_expression_loop genes E p n i gs S = Inr S' \<and> length S' = length S \<and>
           (\<forall>j<i. S' ! j = S ! j) \<and>
           (\<forall>j<length gs. \<exists>idx r. list_index genes (gs ! j) = Inr idx \<and> row_of E p n idx = Inr r \<and>
               S' ! (i + j) = standardized r)"
  using assms
proof (induction gs arbitrary: i S)
  case Nil
  then show ?case by simp
next
  case (Cons g rest)
  from Cons.prems(1) obtain idx where idx: "idx < p" "list_index genes g = Inr idx" by auto
  define r where "r = take n (drop (idx * n) (elems E))"
  have row: "row_of E p n idx = Inr r" using idx by (simp add: row_of_def r_def)
  have i: "i < length S" using Cons.prems(2) by simp
  define S3 where "S3 = S[i := standardized r]"
  have step: "signature_expression_loop genes E p n i (g # rest) S =
              signature_expression_loop genes E p n (i + 1) rest S3"
    using idx row i by (simp add: Let_def S3_def standardized_def)
  have "\<forall>g\<in>set rest. \<exists>idx<p. list_index genes g = Inr idx" using Cons.prems(1) by simp
  moreover have "(i + 1) + length rest \<le> length S3" using Cons.prems(2) by (simp add: S3_def)
  ultimately obtain S' where S': "signature_expression_loop genes E p n (i + 1) rest S3 = Inr S'"
    "length S' = length S3" "\<forall>j<i + 1. S' ! j = S3 ! j"
    "\<forall>j<length rest. \<exists>idx r. list_index genes (rest ! j) = Inr idx \<and> row_of E p n idx = Inr r \<and>
        S' ! ((i + 1) + j) = standardized r"
    using Cons.IH[of "i + 1" S3] by blast
  have a: "length S' = length S" using S'(2) by (simp add: S3_def)
  have b: "\<forall>j<i. S' ! j = S ! j" using S'(3) by (simp add: S3_def)
  have c0: "S' ! i = standardized r" using S'(3) i by (simp add: S3_def)
  have c: "\<exists>idx r. list_index genes ((g # rest) ! j) = Inr idx \<and> row_of E p n idx = Inr r \<and>
        S' ! (i + j) = standardized r" if "j < length (g # rest)" for j
  proof (cases j)
    case 0
    then show ?thesis using idx row c0 by auto
  next
    case (Suc j')
    then have "j' < length rest" using that by simp
    then show ?thesis using S'(4) Suc by simp
  qed
  show ?case using step S'(1) a b c by simp
qed

lemma signature_expression_robust_loop_rows:
  assumes "\<forall>g\<in>set gs. \<exists>idx<p. bisect_index genes g = Inr idx"
    and "i + length gs \<le> length S"
  shows "\<exists>S'. signature_expression_robust_loop bisect_index genes E p n i gs S = Inr S' \<and>
           length S' = length S \<and> (\<forall>j<i. S' ! j = S ! j) \<and>
           (\<forall>j<length gs. \<exists>idx r. bisect_index genes (gs ! j) = Inr idx \<and> row_of E p n idx = Inr r \<and>
               S' ! (i + j) = standardized_robust r)"
  using assms
proof (induction gs arbitrary: i S)
  case Nil
  then show ?case by simp
next
  case (Cons g rest)
  from Cons.prems(1) obtain idx where idx: "idx < p" "bisect_index genes g = Inr idx" by auto
  define r where "r = take n (drop (idx * n) (elems E))"
  have row: "row_of E p n idx = Inr r" using idx by (simp add: row_of_def r_def)
  have i: "i < length S" using Cons.prems(2) by simp
  define S3 where "S3 = S[i := standardized_robust r]"
  have step: "signature_expression_robust_loop bisect_index genes E p n i (g # rest) S =
              signature_expression_robust_loop bisect_index genes E p n (i + 1) rest S3"
    using idx row i by (simp add: Let_def S3_def standardized_robust_def mad_denominator_def)
  have "\<forall>g\<in>set rest. \<exists>idx<p. bisect_index genes g = Inr idx" using Cons.prems(1) by simp
  moreover have "(i + 1) + length rest \<le> length S3" using Cons.prems(2) by (simp add: S3_def)
  ultimately obtain S' where S': "signature_expression_robust_loop bisect_index genes E p n (i + 1) rest S3 = Inr S'"
    "length S' = length S3" "\<forall>j<i + 1. S' ! j = S3 ! j"
    "\<forall>j<length rest. \<exists>idx r. bisect_index genes (rest ! j) = Inr idx \<and> row_of E p n idx = Inr r \<and>
        S' ! ((i + 1) + j) = standardized_robust r"
    using Cons.IH[of "i + 1" S3] by blast
  have a: "length S' = length S" using S'(2) by (simp add: S3_def)
  have b: "\<forall>j<i. S' ! j = S ! j" using S'(3) by (simp add: S3_def)
  have c0: "S' ! i = standardized_robust r" using S'(3) i by (simp add: S3_def)
  have c: "\<exists>idx r. bisect_index genes ((g # rest) ! j) = Inr idx \<and> row_of E p n idx = Inr r \<and>
        S' ! (i + j) = standardized_robust r" if "j < length (g # rest)" for j
  proof (cases j)
    case 0
    then show ?thesis using idx row c0 by auto
  next
    case (Suc j')
    then have "j' < length rest" using that by simp
    then show ?thesis using S'(4) Suc by simp
  qed
  show ?case using step S'(1) a b c by simp
qed

lemma fdiv_degenerate: "d = Fin 0 \<or> d = NaN \<Longrightarrow> \<not> is_fin (fdiv x d)"
  by (cases x) (auto simp: inf_of_sign_def split: if_splits)

lemma fdiv_nonfin: "\<not> is_fin a \<Longrightarrow> \<not> is_fin (fdiv a (Fin y))"
  by (cases a) (auto simp: inf_of_sign_def)

lemma fadd_nonfin_left: "\<not> is_fin a \<Longrightarrow> \<not> is_fin (fadd a b)"
  by (cases a; cases b) simp_all

lemma fadd_nonfin_right: "\<not> is_fin b \<Longrightarrow> \<not> is_fin (fadd a b)"
  by (cases a; cases b) simp_all

lemma foldl_fadd_nonfin_acc: "\<not> is_fin a \<Longrightarrow> \<not> is_fin (foldl fadd a xs)"
  by (induction xs arbitrary: a) (simp_all add: fadd_nonfin_left)

lemma foldl_fadd_nonfin: "\<exists>x\<in>set xs. \<not> is_fin x \<Longrightarrow> \<not> is_fin (foldl fadd a xs)"
proof (induction xs arbitrary: a)
  case Nil
  then show ?case by simp
next
  case (Cons y ys)
  show ?case
  proof (cases "is_fin y")
    case True
    then have "\<exists>x\<in>set ys. \<not> is_fin x" using Cons.prems by auto
    then show ?thesis using Cons.IH by simp
  next
    case False
    then show ?thesis by (simp add: foldl_fadd_nonfin_acc fadd_nonfin_right)
  qed
qed

lemma np_mean_nonfin: "\<exists>x\<in>set xs. \<not> is_fin x \<Longrightarrow> \<not> is_fin (np_mean xs)"
  unfolding np_mean_def np_sum_def by (intro fdiv_nonfin foldl_fadd_nonfin)

lemma np_mean_Nil: "np_mean [] = NaN"
  by (simp add: np_mean_def np_sum_def)

lemma mean_axis0_nonfin:
  assumes "k < length S" "length (S ! k) = n" "\<forall>x\<in>set (S ! k). \<not> is_fin x"
  shows "\<forall>x\<in>set (mean_axis0 S n). \<not> is_fin x"
proof -
  have "\<not> is_fin (np_mean (map (\<lambda>r. r ! j) S))" if "j < n" for j
  proof (rule np_mean_nonfin)
    have "(S ! k) ! j \<in> set (S ! k)" using that assms(2) by simp
    then have "\<not> is_fin ((S ! k) ! j)" using assms(3) by blast
    moreover have "(S ! k) ! j \<in> set (map (\<lambda>r. r ! j) S)" using assms(1) by force
    ultimately show "\<exists>x\<in>set (map (\<lambda>r. r ! j) S). \<not> is_fin x" by blast
  qed
  then show ?thesis by (auto simp: mean_axis0_def)
qed

lemma mean_axis0_Nil: "\<forall>x\<in>set (mean_axis0 [] n). \<not> is_fin x"
  by (simp add: mean_axis0_def np_mean_Nil)

lemma mean_axis0_length: "length (mean_axis0 S n) = n"
  by (simp add: mean_axis0_def)

lemma standardized_degenerate:
  "std_denominator r = Fin 0 \<or> std_denominator r = NaN \<Longrightarrow> \<forall>x\<in>set (standardized r). \<not> is_fin x"
  by (auto simp: standardized_def std_denominator_def Let_def fdiv_degenerate)

lemma standardized_robust_degenerate:
  "mad_denominator r = Fin 0 \<or> mad_denominator r = NaN \<Longrightarrow>
   \<forall>x\<in>set (standardized_robust r). \<not> is_fin x"
  by (auto simp: standardized_robust_def fdiv_degenerate)

lemma std_denominator_single: "std_denominator [x] = NaN"
  by (cases x) (simp_all add: std_denominator_def np_std_ddof1_def np_mean_def np_sum_def fsub_def
      inf_of_sign_def Let_def)

lemma np_median_single: "np_median [x] = x"
  by (cases x) (simp_all add: np_median_def np_mean_single Let_def)

lemma mad_denominator_single: "mad_denominator [x] = Fin 0 \<or> mad_denominator [x] = NaN"
  by (cases x) (simp_all add: mad_denominator_def np_median_single fsub_def)

lemma degenerate_rows_nonfin:
  fixes lookup :: "string list \<Rightarrow> string \<Rightarrow> error + nat"
    and f :: "float64 list \<Rightarrow> float64 list" and den :: "float64 list \<Rightarrow> float64"
  assumes len: "length (elems E) = p * n" "length S' = length gs"
    and rows: "\<forall>j<length gs. \<exists>idx r. lookup genes (gs ! j) = Inr idx \<and> row_of E p n idx = Inr r \<and>
                 S' ! j = f r"
    and f_len: "\<And>r. length (f r) = length r"
    and f_deg: "\<And>r. den r = Fin 0 \<or> den r = NaN \<Longrightarrow> \<forall>x\<in>set (f r). \<not> is_fin x"
    and den_single: "\<And>x. den [x] = Fin 0 \<or> den [x] = NaN"
    and deg: "n < 2 \<or> (\<exists>g\<in>set gs. \<exists>idx r. lookup genes g = Inr idx \<and> row_of E p n idx = Inr r \<and>
                 den r = Fin 0)"
  shows "\<forall>x\<in>set (mean_axis0 S' n). \<not> is_fin x"
proof -
  have row_deg: "\<forall>x\<in>set (mean_axis0 S' n). \<not> is_fin x"
    if j: "j < length gs" and r: "lookup genes (gs ! j) = Inr idx" "row_of E p n idx = Inr r"
      and d: "den r = Fin 0 \<or> den r = NaN" for j idx r
  proof -
    obtain idx' r' where r': "lookup genes (gs ! j) = Inr idx'" "row_of E p n idx' = Inr r'"
      "S' ! j = f r'" using rows j by blast
    have "idx' = idx" using r(1) r'(1) by simp
    then have "r' = r" using r(2) r'(2) by simp
    then have Sj: "S' ! j = f r" using r'(3) by simp
    have "length r = n" using r(2) len(1) by (rule row_of_length)
    then have "length (S' ! j) = n" using Sj f_len by simp
    moreover have "\<forall>x\<in>set (S' ! j). \<not> is_fin x" using Sj f_deg[OF d] by simp
    moreover have "j < length S'" using j len(2) by simp
    ultimately show ?thesis by (intro mean_axis0_nonfin[of j]) 
  qed
  from deg show ?thesis
  proof
    assume n: "n < 2"
    show ?thesis
    proof (cases "n = 0 \<or> gs = []")
      case True
      then show ?thesis
      proof
        assume "n = 0" then show ?thesis by (simp add: mean_axis0_def)
      next
        assume "gs = []"
        then have "S' = []" using len(2) by simp
        then show ?thesis by (simp add: mean_axis0_Nil)
      qed
    next
      case False
      then have n1: "n = 1" and j: "0 < length gs" using n by auto
      obtain idx r where r: "lookup genes (gs ! 0) = Inr idx" "row_of E p n idx = Inr r"
        using rows j by blast
      have "length r = 1" using row_of_length[OF r(2) len(1)] n1 by simp
      then obtain x where "r = [x]" by (cases r) auto
      then have "den r = Fin 0 \<or> den r = NaN" using den_single by simp
      then show ?thesis using row_deg[OF j r] by blast
    qed
  next
    assume "\<exists>g\<in>set gs. \<exists>idx r. lookup genes g = Inr idx \<and> row_of E p n idx = Inr r \<and> den r = Fin 0"
    then obtain g idx r where g: "g \<in> set gs" and r: "lookup genes g = Inr idx"
      "row_of E p n idx = Inr r" and d: "den r = Fin 0" by blast
    obtain j where j: "j < length gs" "gs ! j = g" using g by (auto simp: in_set_conv_nth)
    show ?thesis using row_deg[of j idx r] j r d by simp
  qed
qed

lemma std_denominator_const2: "std_denominator [Fin 1, Fin 1] = Fin 0"
  by (simp add: std_denominator_def np_std_ddof1_def np_mean_def np_sum_def fsub_def Let_def)

lemma mad_denominator_const2: "mad_denominator [Fin 1, Fin 1] = Fin 0"
  by code_simp

text \<open>
  Claim C7 asks both calculators to fail with a degenerate-input error when there are fewer
  than 2 samples or a divisor is zero. Neither function checks anything, and a numpy
  division by zero raises nothing: on a constant row of two samples, and on a single sample,
  the mean-of-z-scores calculator returns \<open>nan\<close> scores; the robust calculator returns
  \<open>nan\<close> and \<open>inf\<close>.
\<close>

theorem signature_expression_degenerate_counterexample:
  "get_signature_expression [''g''] \<lparr>shape = [1, 2], elems = [Fin 1, Fin 1]\<rparr> [''g''] = Inr [NaN, NaN] \<and>
   get_signature_expression [''g''] \<lparr>shape = [1, 1], elems = [Fin 5]\<rparr> [''g''] = Inr [NaN] \<and>
   get_signature_expression_robust list_index [''g''] \<lparr>shape = [1, 3], elems = [Fin 1, Fin 1, Fin 2]\<rparr> [''g'']
     = Inr [NaN, NaN, PInf] \<and>
   get_signature_expression_robust list_index [''g''] \<lparr>shape = [1, 1], elems = [Fin 5]\<rparr> [''g''] = Inr [NaN]"
proof -
  have a: "get_signature_expression [''g''] \<lparr>shape = [1, 2], elems = [Fin 1, Fin 1]\<rparr> [''g''] = Inr [NaN, NaN]"
    by (simp add: get_signature_expression_def list_index_def row_of_def np_mean_def np_sum_def
      np_std_ddof1_def mean_axis0_def fsub_def Let_def upt_rec)
  have b: "get_signature_expression [''g''] \<lparr>shape = [1, 1], elems = [Fin 5]\<rparr> [''g''] = Inr [NaN]"
    by (simp add: get_signature_expression_def list_index_def row_of_def np_mean_def np_sum_def
      np_std_ddof1_def mean_axis0_def fsub_def Let_def upt_rec)
  have c: "get_signature_expression_robust list_index [''g''] \<lparr>shape = [1, 3], elems = [Fin 1, Fin 1, Fin 2]\<rparr> [''g'']
     = Inr [NaN, NaN, PInf]"
    by code_simp
  have d: "get_signature_expression_robust list_index [''g''] \<lparr>shape = [1, 1], elems = [Fin 5]\<rparr> [''g''] = Inr [NaN]"
    by code_simp
  show ?thesis using a b c d by simp
qed

text \<open>
  C7 (amended): neither calculator validates its input. When every member gene is found
  (at a row of \<open>E\<close>) and the matrix has fewer than 2 samples, or the divisor of some member
  gene (the standard deviation, respectively 1.4826 times the median absolute deviation) is
  zero, the call raises nothing: it returns a score vector with one entry per sample, and
  every entry is \<open>nan\<close> or infinite, the results of the divisions by zero.
\<close>

theorem signature_expression_degenerate:
  assumes "shape E = [p, n]" "length (elems E) = p * n"
    and "\<forall>g\<in>set sig_genes. \<exists>idx<p. list_index genes g = Inr idx"
    and "\<forall>g\<in>set sig_genes. \<exists>idx<p. bisect_index genes g = Inr idx"
  shows "(n < 2 \<or> (\<exists>g\<in>set sig_genes. \<exists>idx r. list_index genes g = Inr idx \<and>
              row_of E p n idx = Inr r \<and> std_denominator r = Fin 0) \<longrightarrow>
          (\<exists>sig. get_signature_expression genes E sig_genes = Inr sig \<and> length sig = n \<and>
                 (\<forall>x\<in>set sig. \<not> is_fin x))) \<and>
         (n < 2 \<or> (\<exists>g\<in>set sig_genes. \<exists>idx r. bisect_index genes g = Inr idx \<and>
              row_of E p n idx = Inr r \<and> mad_denominator r = Fin 0) \<longrightarrow>
          (\<exists>sig. get_signature_expression_robust bisect_index genes E sig_genes = Inr sig \<and>
                 length sig = n \<and> (\<forall>x\<in>set sig. \<not> is_fin x)))"
proof (intro conjI impI)
  let ?S = "replicate (length sig_genes) (replicate n (Fin 0))"
  assume deg: "n < 2 \<or> (\<exists>g\<in>set sig_genes. \<exists>idx r. list_index genes g = Inr idx \<and>
              row_of E p n idx = Inr r \<and> std_denominator r = Fin 0)"
  obtain S' where S': "signature_expression_loop genes E p n 0 sig_genes ?S = Inr S'"
    "length S' = length ?S"
    "\<forall>j<length sig_genes. \<exists>idx r. list_index genes (sig_genes ! j) = Inr idx \<and>
        row_of E p n idx = Inr r \<and> S' ! (0 + j) = standardized r"
    using signature_expression_loop_rows[OF assms(3), of 0 ?S E n] by auto
  have res: "get_signature_expression genes E sig_genes = Inr (mean_axis0 S' n)"
    using assms(1) S'(1) by (simp add: get_signature_expression_def)
  have "\<forall>x\<in>set (mean_axis0 S' n). \<not> is_fin x"
  proof (rule degenerate_rows_nonfin[where lookup = list_index and f = standardized
        and den = std_denominator and gs = sig_genes and genes = genes and E = E and p = p])
    show "length (elems E) = p * n" by (rule assms(2))
    show "length S' = length sig_genes" using S'(2) by simp
    show "\<forall>j<length sig_genes. \<exists>idx r. list_index genes (sig_genes ! j) = Inr idx \<and>
        row_of E p n idx = Inr r \<and> S' ! j = standardized r" using S'(3) by simp
    show "\<And>r. length (standardized r) = length r" by (rule standardized_length)
    show "\<And>r. std_denominator r = Fin 0 \<or> std_denominator r = NaN \<Longrightarrow>
        \<forall>x\<in>set (standardized r). \<not> is_fin x" by (rule standardized_degenerate)
    show "\<And>x. std_denominator [x] = Fin 0 \<or> std_denominator [x] = NaN"
      by (simp add: std_denominator_single)
    show "n < 2 \<or> (\<exists>g\<in>set sig_genes. \<exists>idx r. list_index genes g = Inr idx \<and>
        row_of E p n idx = Inr r \<and> std_denominator r = Fin 0)" by (rule deg)
  qed
  then show "\<exists>sig. get_signature_expression genes E sig_genes = Inr sig \<and> length sig = n \<and>
                 (\<forall>x\<in>set sig. \<not> is_fin x)"
    using res by (simp add: mean_axis0_length)
next
  let ?S = "replicate (length sig_genes) (replicate n (Fin 0))"
  assume deg: "n < 2 \<or> (\<exists>g\<in>set sig_genes. \<exists>idx r. bisect_index genes g = Inr idx \<and>
              row_of E p n idx = Inr r \<and> mad_denominator r = Fin 0)"
  obtain S' where S': "signature_expression_robust_loop bisect_index genes E p n 0 sig_genes ?S = Inr S'"
    "length S' = length ?S"
    "\<forall>j<length sig_genes. \<exists>idx r. bisect_index genes (sig_genes ! j) = Inr idx \<and>
        row_of E p n idx = Inr r \<and> S' ! (0 + j) = standardized_robust r"
    using signature_expression_robust_loop_rows[where bisect_index = bisect_index and genes = genes
        and gs = sig_genes and p = p and i = 0 and S = ?S and E = E and n = n] assms(4) by auto
  have res: "get_signature_expression_robust bisect_index genes E sig_genes = Inr (mean_axis0 S' n)"
    using assms(1) S'(1) by (simp add: get_signature_expression_robust_def)
  have "\<forall>x\<in>set (mean_axis0 S' n). \<not> is_fin x"
  proof (rule degenerate_rows_nonfin[where lookup = bisect_index and f = standardized_robust
        and den = mad_denominator and gs = sig_genes and genes = genes and E = E and p = p])
    show "length (elems E) = p * n" by (rule assms(2))
    show "length S' = length sig_genes" using S'(2) by simp
    show "\<forall>j<length sig_genes. \<exists>idx r. bisect_index genes (sig_genes ! j) = Inr idx \<and>
        row_of E p n idx = Inr r \<and> S' ! j = standardized_robust r" using S'(3) by simp
    show "\<And>r. length (standardized_robust r) = length r" by (rule standardized_robust_length)
    show "\<And>r. mad_denominator r = Fin 0 \<or> mad_denominator r = NaN \<Longrightarrow>
        \<forall>x\<in>set (standardized_robust r). \<not> is_fin x" by (rule standardized_robust_degenerate)
    show "\<And>x. mad_denominator [x] = Fin 0 \<or> mad_denominator [x] = NaN"
      by (rule mad_denominator_single)
    show "n < 2 \<or> (\<exists>g\<in>set sig_genes. \<exists>idx r. bisect_index genes g = Inr idx \<and>
        row_of E p n idx = Inr r \<and> mad_denominator r = Fin 0)" by (rule deg)
  qed
  then show "\<exists>sig. get_signature_expression_robust bisect_index genes E sig_genes = Inr sig \<and>
                 length sig = n \<and> (\<forall>x\<in>set sig. \<not> is_fin x)"
    using res by (simp add: mean_axis0_length)
qed

theorem signature_expression_degenerate_witness:
  "(\<exists>sig. get_signature_expression [''g''] \<lparr>shape = [1, 2], elems = [Fin 1, Fin 1]\<rparr> [''g''] = Inr sig \<and>
          length sig = 2 \<and> \<not> is_fin (sig ! 0) \<and> \<not> is_fin (sig ! 1)) \<and>
   (\<exists>sig. get_signature_expression_robust list_index [''g''] \<lparr>shape = [1, 2], elems = [Fin 1, Fin 1]\<rparr> [''g'']
            = Inr sig \<and> length sig = 2 \<and> \<not> is_fin (sig ! 0) \<and> \<not> is_fin (sig ! 1))"
proof -
  let ?E = "\<lparr>shape = [1, 2], elems = [Fin 1, Fin 1]\<rparr>"
  have h1: "shape ?E = [1, 2]" by simp
  have h2: "length (elems ?E) = 1 * 2" by simp
  have h3: "\<forall>g\<in>set [''g'']. \<exists>idx<1. list_index [''g''] g = Inr idx"
    by (simp add: list_index_def)
  have row: "list_index [''g''] ''g'' = Inr 0 \<and> row_of ?E 1 2 0 = Inr [Fin 1, Fin 1]"
    by (simp add: list_index_def row_of_def)
  have d1: "\<exists>g\<in>set [''g'']. \<exists>idx r. list_index [''g''] g = Inr idx \<and> row_of ?E 1 2 idx = Inr r \<and>
      std_denominator r = Fin 0"
    using row std_denominator_const2 by auto
  have d2: "\<exists>g\<in>set [''g'']. \<exists>idx r. list_index [''g''] g = Inr idx \<and> row_of ?E 1 2 idx = Inr r \<and>
      mad_denominator r = Fin 0"
    using row mad_denominator_const2 by auto
  note t = signature_expression_degenerate[where bisect_index = list_index and genes = "[''g'']"
      and sig_genes = "[''g'']" and E = ?E and p = 1 and n = 2, OF h1 h2 h3 h3]
  obtain sig1 where s1: "get_signature_expression [''g''] ?E [''g''] = Inr sig1" "length sig1 = 2"
    "\<forall>x\<in>set sig1. \<not> is_fin x"
    using t d1 by blast
  obtain sig2 where s2: "get_signature_expression_robust list_index [''g''] ?E [''g''] = Inr sig2"
    "length sig2 = 2" "\<forall>x\<in>set sig2. \<not> is_fin x"
    using t d2 by blast
  have "\<not> is_fin (sig1 ! 0) \<and> \<not> is_fin (sig1 ! 1)" using s1(2,3) by simp
  moreover have "\<not> is_fin (sig2 ! 0) \<and> \<not> is_fin (sig2 ! 1)" using s2(2,3) by simp
  ultimately show ?thesis using s1 s2 by blast
qed

section \<open>Properties of the configuration, signature and result objects\<close>

subsection \<open>C5: validation of the configuration\<close>

text \<open>
  C5: constructing a \<^verbatim>\<open>GOPCAConfig\<close> fails (with \<^verbatim>\<open>AssertionError\<close>) whenever a
  recognized parameter is missing from the keyword arguments. When all are supplied,
  construction succeeds, and the configuration holds exactly the recognized parameters, each
  with the value supplied; every unrecognized key is dropped. In both cases one warning line
  is printed for every unrecognized key, in sorted order of the keys.
\<close>

theorem GOPCAConfig_init_validates:
  "(\<not> set valid_attrs \<subseteq> set (map fst kwargs) \<longrightarrow>
      snd (GOPCAConfig_init kwargs) = Inl AssertionError) \<and>
   (set valid_attrs \<subseteq> set (map fst kwargs) \<longrightarrow>
      (\<exists>cfg. snd (GOPCAConfig_init kwargs) = Inr cfg \<and> dom cfg = set valid_attrs \<and>
             (\<forall>k\<in>set valid_attrs. cfg k = map_of kwargs k))) \<and>
   fst (GOPCAConfig_init kwargs) =
     map warning_line (sorted_list_of_set (set (map fst kwargs) - set valid_attrs)) \<and>
   (\<forall>k\<in>set (map fst kwargs) - set valid_attrs. warning_line k \<in> set (fst (GOPCAConfig_init kwargs)))"
proof -
  have all: "list_all (\<lambda>k. k \<in> set (map fst kwargs)) valid_attrs \<longleftrightarrow>
             set valid_attrs \<subseteq> set (map fst kwargs)"
    by (auto simp: list_all_iff)
  have out: "fst (GOPCAConfig_init kwargs) =
     map warning_line (sorted_list_of_set (set (map fst kwargs) - set valid_attrs))"
    by (simp add: GOPCAConfig_init_def Let_def)
  have missing: "snd (GOPCAConfig_init kwargs) = Inl AssertionError"
    if "\<not> set valid_attrs \<subseteq> set (map fst kwargs)"
    using that all by (simp add: GOPCAConfig_init_def Let_def)
  have present: "\<exists>cfg. snd (GOPCAConfig_init kwargs) = Inr cfg \<and> dom cfg = set valid_attrs \<and>
             (\<forall>k\<in>set valid_attrs. cfg k = map_of kwargs k)"
    if sub: "set valid_attrs \<subseteq> set (map fst kwargs)"
  proof -
    have "snd (GOPCAConfig_init kwargs) = Inr (map_of kwargs |` set valid_attrs)"
      using sub all by (simp add: GOPCAConfig_init_def Let_def)
    moreover have "dom (map_of kwargs |` set valid_attrs) = set valid_attrs"
      using sub by (auto simp: dom_map_of_conv_image_fst)
    ultimately show ?thesis by simp
  qed
  have warned: "warning_line k \<in> set (fst (GOPCAConfig_init kwargs))"
    if "k \<in> set (map fst kwargs) - set valid_attrs" for k
  proof -
    have "finite (set (map fst kwargs) - set valid_attrs)" by simp
    then have "k \<in> set (sorted_list_of_set (set (map fst kwargs) - set valid_attrs))"
      using that by simp
    then show ?thesis unfolding out by simp
  qed
  show ?thesis using out missing present warned by blast
qed

theorem GOPCAConfig_init_validates_witness:
  "snd (GOPCAConfig_init (tl [(''mHG_L'', 1::int), (''zeta'', 5), (''mHG_X_frac'', 2), (''mHG_X_min'', 3),
      (''pval_thresh'', 4), (''mfe_pval_thresh'', 6), (''mfe_thresh'', 7), (''alpha'', 0),
      (''disable_local_filter'', 8), (''disable_global_filter'', 9)])) = Inl AssertionError \<and>
   (\<exists>cfg. snd (GOPCAConfig_init [(''mHG_L'', 1::int), (''zeta'', 5), (''mHG_X_frac'', 2), (''mHG_X_min'', 3),
      (''pval_thresh'', 4), (''mfe_pval_thresh'', 6), (''mfe_thresh'', 7), (''alpha'', 0),
      (''disable_local_filter'', 8), (''disable_global_filter'', 9)]) = Inr cfg \<and>
      dom cfg = set valid_attrs \<and> cfg ''mHG_L'' = Some 1 \<and> cfg ''zeta'' = None) \<and>
   fst (GOPCAConfig_init [(''mHG_L'', 1::int), (''zeta'', 5), (''mHG_X_frac'', 2), (''mHG_X_min'', 3),
      (''pval_thresh'', 4), (''mfe_pval_thresh'', 6), (''mfe_thresh'', 7), (''alpha'', 0),
      (''disable_local_filter'', 8), (''disable_global_filter'', 9)]) =
     [warning_line ''alpha'', warning_line ''zeta'']"
proof -
  let ?kw = "[(''mHG_L'', 1::int), (''zeta'', 5), (''mHG_X_frac'', 2), (''mHG_X_min'', 3),
      (''pval_thresh'', 4), (''mfe_pval_thresh'', 6), (''mfe_thresh'', 7), (''alpha'', 0),
      (''disable_local_filter'', 8), (''disable_global_filter'', 9)]"
  have sub: "set valid_attrs \<subseteq> set (map fst ?kw)" by code_simp
  have nsub: "\<not> set valid_attrs \<subseteq> set (map fst (tl ?kw))" by code_simp
  have sorted: "sorted_list_of_set (set (map fst ?kw) - set valid_attrs) = [''alpha'', ''zeta'']"
    by code_simp
  have a: "snd (GOPCAConfig_init (tl ?kw)) = Inl AssertionError"
    using GOPCAConfig_init_validates[of "tl ?kw"] nsub by blast
  obtain cfg where cfg: "snd (GOPCAConfig_init ?kw) = Inr cfg" "dom cfg = set valid_attrs"
    "\<forall>k\<in>set valid_attrs. cfg k = map_of ?kw k"
    using GOPCAConfig_init_validates[of ?kw] sub by blast
  have "''mHG_L'' \<in> set valid_attrs" by (simp add: valid_attrs_def)
  then have "cfg ''mHG_L'' = Some 1" using cfg(3) by simp
  moreover have "''zeta'' \<notin> set valid_attrs" by (simp add: valid_attrs_def)
  then have "cfg ''zeta'' = None" using cfg(2) by blast
  ultimately have b: "\<exists>cfg. snd (GOPCAConfig_init ?kw) = Inr cfg \<and>
      dom cfg = set valid_attrs \<and> cfg ''mHG_L'' = Some 1 \<and> cfg ''zeta'' = None"
    using cfg by blast
  have c: "fst (GOPCAConfig_init ?kw) = [warning_line ''alpha'', warning_line ''zeta'']"
    using GOPCAConfig_init_validates[of ?kw] sorted by simp
  show ?thesis using a b c by blast
qed

subsection \<open>C6: equality of signatures\<close>




subsection \<open>C9: the shape invariants of a result\<close>

text \<open>
  C9: every \<^verbatim>\<open>GOPCAResult\<close> that \<^verbatim>\<open>__init__\<close> constructs satisfies the shape
  invariants: \<open>W\<close> has as many rows as there are genes, \<open>S\<close> has as many rows as there
  are signatures and as many columns as there are samples. On arguments of the right types
  whose shapes violate one of the three, construction aborts with an exception.
\<close>

theorem GOPCAResult_init_shapes:
  "(GOPCAResult_init config genes samples W signatures S = Inr r \<longrightarrow>
      shape_at (result_W r) 0 = Inr (length (result_genes r)) \<and>
      shape_at (result_S r) 0 = Inr (length (result_signatures r)) \<and>
      shape_at (result_S r) 1 = Inr (length (result_samples r))) \<and>
   (W = NdarrayObj W' \<and> S = NdarrayObj S' \<and> seq_items genes = Some genes' \<and>
    seq_items samples = Some samples' \<and> seq_items signatures = Some signatures' \<and>
    (shape_at W' 0 \<noteq> Inr (length genes') \<or> shape_at S' 0 \<noteq> Inr (length signatures') \<or>
     shape_at S' 1 \<noteq> Inr (length samples')) \<longrightarrow>
    (\<exists>err. GOPCAResult_init config genes samples W signatures S = Inl err))"
proof -
  have built: "shape_at (result_W r) 0 = Inr (length (result_genes r)) \<and>
      shape_at (result_S r) 0 = Inr (length (result_signatures r)) \<and>
      shape_at (result_S r) 1 = Inr (length (result_samples r))"
    if "GOPCAResult_init config genes samples W signatures S = Inr r"
    using that unfolding GOPCAResult_init_def
    by (auto split: pyobj.splits option.splits sum.splits if_splits)
  have aborts: "\<exists>err. GOPCAResult_init config genes samples W signatures S = Inl err"
    if a: "W = NdarrayObj W' \<and> S = NdarrayObj S' \<and> seq_items genes = Some genes' \<and>
      seq_items samples = Some samples' \<and> seq_items signatures = Some signatures' \<and>
      (shape_at W' 0 \<noteq> Inr (length genes') \<or> shape_at S' 0 \<noteq> Inr (length signatures') \<or>
       shape_at S' 1 \<noteq> Inr (length samples'))"
  proof (cases "GOPCAResult_init config genes samples W signatures S")
    case (Inl err)
    then show ?thesis by blast
  next
    case (Inr r')
    then have False using a unfolding GOPCAResult_init_def
      by (auto split: pyobj.splits option.splits sum.splits if_splits)
    then show ?thesis ..
  qed
  show ?thesis using built aborts by blast
qed

theorem GOPCAResult_init_shapes_witness:
  "(\<exists>r. GOPCAResult_init (ConfigObj Map.empty) (ListObj [StrObj ''g1'', StrObj ''g2''])
        (TupleObj [StrObj ''s1'', StrObj ''s2'', StrObj ''s3''])
        (NdarrayObj \<lparr>shape = [2, 1], elems = [Fin 1, Fin 2]\<rparr>)
        (ListObj [])
        (NdarrayObj \<lparr>shape = [0, 3], elems = []\<rparr>) = Inr (r :: (unit, unit) GOPCAResult) \<and>
      shape_at (result_W r) 0 = Inr 2 \<and> shape_at (result_S r) 0 = Inr 0 \<and>
      shape_at (result_S r) 1 = Inr 3) \<and>
   (\<exists>err. GOPCAResult_init (ConfigObj Map.empty) (ListObj [StrObj ''g1''])
        (TupleObj [StrObj ''s1'', StrObj ''s2'', StrObj ''s3''])
        (NdarrayObj \<lparr>shape = [2, 1], elems = [Fin 1, Fin 2]\<rparr>)
        (ListObj [])
        (NdarrayObj \<lparr>shape = [0, 3], elems = []\<rparr>) = (Inl err :: error + (unit, unit) GOPCAResult))"
proof -
  let ?c = "ConfigObj Map.empty :: (unit, unit) pyobj"
  let ?g = "ListObj [StrObj ''g1'', StrObj ''g2''] :: (unit, unit) pyobj"
  let ?g1 = "ListObj [StrObj ''g1''] :: (unit, unit) pyobj"
  let ?s = "TupleObj [StrObj ''s1'', StrObj ''s2'', StrObj ''s3''] :: (unit, unit) pyobj"
  let ?W = "NdarrayObj \<lparr>shape = [2, 1], elems = [Fin 1, Fin 2]\<rparr> :: (unit, unit) pyobj"
  let ?sigs = "ListObj [] :: (unit, unit) pyobj"
  let ?S = "NdarrayObj \<lparr>shape = [0, 3], elems = []\<rparr> :: (unit, unit) pyobj"
  obtain r where r: "GOPCAResult_init ?c ?g ?s ?W ?sigs ?S = Inr r"
    by (simp add: GOPCAResult_init_def shape_at_def)
  have len: "length (result_genes r) = 2 \<and> length (result_signatures r) = 0 \<and>
             length (result_samples r) = 3"
    using r by (auto simp: GOPCAResult_init_def shape_at_def)
  have a: "shape_at (result_W r) 0 = Inr 2 \<and> shape_at (result_S r) 0 = Inr 0 \<and>
      shape_at (result_S r) 1 = Inr 3"
    using GOPCAResult_init_shapes[of ?c ?g ?s ?W ?sigs ?S r] r len by simp
  have mismatch: "?W = NdarrayObj \<lparr>shape = [2, 1], elems = [Fin 1, Fin 2]\<rparr> \<and>
      ?S = NdarrayObj \<lparr>shape = [0, 3], elems = []\<rparr> \<and> seq_items ?g1 = Some [StrObj ''g1''] \<and>
      seq_items ?s = Some [StrObj ''s1'', StrObj ''s2'', StrObj ''s3''] \<and> seq_items ?sigs = Some [] \<and>
      (shape_at \<lparr>shape = [2, 1], elems = [Fin 1, Fin 2]\<rparr> 0 \<noteq> Inr (length [StrObj ''g1'' :: (unit, unit) pyobj]) \<or>
       shape_at \<lparr>shape = [0, 3], elems = []\<rparr> 0 \<noteq> Inr (length ([] :: (unit, unit) pyobj list)) \<or>
       shape_at \<lparr>shape = [0, 3], elems = []\<rparr> 1 \<noteq> Inr (length [StrObj ''s1'' :: (unit, unit) pyobj, StrObj ''s2'', StrObj ''s3'']))"
    by (simp add: shape_at_def)
  have b: "\<exists>err. GOPCAResult_init ?c ?g1 ?s ?W ?sigs ?S = Inl err"
    using GOPCAResult_init_shapes[of ?c ?g1 ?s ?W ?sigs ?S] mismatch by blast
  show ?thesis using r a b by blast
qed

end
